theory Spec2Isabelle
  imports Main "HOL-Library.Word" "HOL-Library.AList"
begin

unbundle bit_operations_syntax

section \<open>Strings and their hashes (object.c)\<close>

text \<open>
  A C string of known length is a list of bytes; \<open>char\<close> is the 8-bit character type and
  \<open>of_char\<close> reads a character as the unsigned byte the cast \<^verbatim>\<open>(uint8_t)key[i]\<close> yields.
  The hash is a \<^verbatim>\<open>uint32_t\<close>, so \<open>XOR\<close> and \<open>*\<close> are those of \<open>32 word\<close> and the
  multiplication wraps.
\<close>

type_synonym uint32 = "32 word"
type_synonym size_t = "64 word"

text \<open>
  \<^verbatim>\<open>hash_string\<close>: the loop body is one step, the loop a left fold over the bytes,
  started from the constant written in the source.
\<close>

definition hash_step :: "uint32 \<Rightarrow> char \<Rightarrow> uint32" where
  "hash_step hash c = (hash XOR of_char c) * 16777619"

definition hash_string :: "string \<Rightarrow> uint32" where
  "hash_string key = foldl hash_step 216613626 key"

text \<open>
  The FNV-1a hash as the specification words it: the fold from the offset basis
  2166136261 that XORs each byte and multiplies by the prime 16777619.
\<close>

definition fnv1a_spec :: "string \<Rightarrow> uint32" where
  "fnv1a_spec key = foldl (\<lambda>h c. (h XOR of_char c) * 16777619) 2166136261 key"

section \<open>Values and heap objects (value.h, object.h)\<close>

text \<open>
  A \<^verbatim>\<open>Value\<close> is the tagged scalar of value.h: nil, a boolean, a number or a pointer to a
  heap object. A number is kept as the 64 bits of its IEEE-754 double (what
  \<^verbatim>\<open>num_to_value\<close> copies); the constructors carry the names of the C macros. A pointer
  to a heap object is an address; the heap is an explicit store from addresses to objects.
\<close>

type_synonym addr = nat
type_synonym double = "64 word"

datatype Value = NIL_VAL | BOOL_VAL bool | NUMBER_VAL double | OBJ_VAL addr

fun IS_NIL :: "Value \<Rightarrow> bool" where
  "IS_NIL NIL_VAL = True"
| "IS_NIL _ = False"

fun IS_NUMBER :: "Value \<Rightarrow> bool" where
  "IS_NUMBER (NUMBER_VAL _) = True"
| "IS_NUMBER _ = False"

fun IS_BOOL :: "Value \<Rightarrow> bool" where
  "IS_BOOL (BOOL_VAL _) = True"
| "IS_BOOL _ = False"

text \<open>\<^verbatim>\<open>GROW_CAPACITY\<close> of memory.h; the macro \<^verbatim>\<open>3/2\<close> expands to \<^verbatim>\<open>capacity * 3/2\<close>.\<close>

definition GROW_CAPACITY :: "nat \<Rightarrow> nat" where
  "GROW_CAPACITY capacity = (if capacity < 8 then 8 else capacity * 3 div 2)"

definition GROW_TABLE_CAPACITY :: "nat \<Rightarrow> nat" where
  "GROW_TABLE_CAPACITY capacity = (if capacity < 8 then 8 else capacity * 2)"

text \<open>
  \<^verbatim>\<open>ValueArray\<close> and \<^verbatim>\<open>Chunk\<close>: the \<^verbatim>\<open>count\<close> field is the length of the list that holds
  the used part of the array; the capacity is kept as the source keeps it.
\<close>

record ValueArray =
  va_capacity :: nat
  vals :: "Value list"

definition init_value_array :: ValueArray where
  "init_value_array = \<lparr>va_capacity = 0, vals = []\<rparr>"

definition write_value_array :: "ValueArray \<Rightarrow> Value \<Rightarrow> ValueArray" where
  "write_value_array array v =
     (let array1 = (if length (vals array) \<ge> va_capacity array
                    then array\<lparr>va_capacity := GROW_CAPACITY (va_capacity array)\<rparr>
                    else array)
      in array1\<lparr>vals := vals array1 @ [v]\<rparr>)"

type_synonym uint8 = "8 word"

record Chunk =
  capacity :: nat
  code :: "uint8 list"
  lines :: "int list"
  constants :: ValueArray

definition init_chunk :: Chunk where
  "init_chunk = \<lparr>capacity = 0, code = [], lines = [], constants = init_value_array\<rparr>"

definition write_chunk :: "Chunk \<Rightarrow> uint8 \<Rightarrow> int \<Rightarrow> Chunk" where
  "write_chunk chunk byte ln =
     (let chunk1 = (if length (code chunk) \<ge> capacity chunk
                    then chunk\<lparr>capacity := GROW_CAPACITY (capacity chunk)\<rparr>
                    else chunk)
      in chunk1\<lparr>code := code chunk1 @ [byte], lines := lines chunk1 @ [ln]\<rparr>)"

text \<open>
  The hash table of table.h. An entry with a null key is empty when its value is nil and a
  tombstone otherwise. \<^verbatim>\<open>count\<close> and \<^verbatim>\<open>capacity\<close> are \<^verbatim>\<open>size_t\<close>; \<^verbatim>\<open>entries\<close> is the
  array of \<^verbatim>\<open>capacity\<close> entries (empty for the null pointer).
\<close>

record Entry =
  key :: "addr option"
  val :: Value

record Table =
  count :: nat
  tcapacity :: nat
  entries :: "Entry list"

definition init_table :: Table where
  "init_table = \<lparr>count = 0, tcapacity = 0, entries = []\<rparr>"

datatype NativeFn = clock_native | print_native | println_native

datatype Location = Slot nat | Closed

record LoxString =
  chars :: string
  hash :: uint32

record LoxFunction =
  arity :: int
  upvalue_count :: int
  chunk :: Chunk
  fname :: "addr option"

record LoxUpvalue =
  location :: Location
  closed :: Value
  next_upvalue :: "addr option"

record LoxClosure =
  closure_function :: addr
  closure_upvalues :: "addr option list"

record LoxClass =
  cname :: addr
  methods :: Table

record LoxInstance =
  klass :: addr
  ifields :: Table

record LoxBoundMethod =
  receiver :: Value
  bmethod :: addr

datatype LoxObj =
    LOX_BOUND_METHOD LoxBoundMethod
  | LOX_CLASS LoxClass
  | LOX_CLOSURE LoxClosure
  | LOX_FUNCTION LoxFunction
  | LOX_INSTANCE LoxInstance
  | LOX_STRING LoxString
  | LOX_UPVALUE LoxUpvalue
  | LOX_NATIVE NativeFn

text \<open>
  The heap is an association list from addresses to objects, the newest object first: its
  keys in order are the list threaded through the \<^verbatim>\<open>next\<close> fields from \<^verbatim>\<open>vm.objects\<close>.
  \<open>obj_at\<close> follows a pointer; a pointer to no object has no defined result.
\<close>

type_synonym heap = "(addr \<times> LoxObj) list"

definition obj_at :: "heap \<Rightarrow> addr \<Rightarrow> LoxObj option" where
  "obj_at h a = map_of h a"

definition string_at :: "heap \<Rightarrow> addr \<Rightarrow> LoxString option" where
  "string_at h a = (case obj_at h a of Some (LOX_STRING s) \<Rightarrow> Some s | _ \<Rightarrow> None)"

definition IS_STRING :: "heap \<Rightarrow> Value \<Rightarrow> bool" where
  "IS_STRING h v = (case v of OBJ_VAL a \<Rightarrow> (case obj_at h a of Some (LOX_STRING s) \<Rightarrow> True | _ \<Rightarrow> False)
                            | _ \<Rightarrow> False)"

section \<open>Hash tables (table.c)\<close>

text \<open>
  \<^verbatim>\<open>MOD_CAPACITY\<close> with \<^verbatim>\<open>LOX_TABLE_GROW_FACTOR == 2\<close> is the mask \<^verbatim>\<open>val & (capacity - 1)\<close>,
  stored into a \<^verbatim>\<open>uint32_t\<close> index.
\<close>

definition MOD_CAPACITY :: "nat \<Rightarrow> nat \<Rightarrow> nat" where
  "MOD_CAPACITY cap v = (and v (cap - 1)) mod 2 ^ 32"

text \<open>
  The probing loop \<^verbatim>\<open>for (;;)\<close> of \<^verbatim>\<open>find_entry\<close> has no bound: it is a partial function, and
  \<open>None\<close> stands for a call that does not return (the loop runs forever, or it reads outside
  the array). The result is the index of the entry the C function returns a pointer to.
\<close>

partial_function (option) find_entry_loop ::
  "Entry list \<Rightarrow> nat \<Rightarrow> addr \<Rightarrow> nat \<Rightarrow> nat option \<Rightarrow> nat option" where
  "find_entry_loop es cap k index tombstone =
     (if index < length es then
        (case key (es ! index) of
           None \<Rightarrow>
             if IS_NIL (val (es ! index))
             then Some (case tombstone of Some t \<Rightarrow> t | None \<Rightarrow> index)
             else find_entry_loop es cap k (MOD_CAPACITY cap ((index + 1) mod 2 ^ 32))
                    (case tombstone of None \<Rightarrow> Some index | Some t \<Rightarrow> Some t)
         | Some k' \<Rightarrow>
             if k' = k then Some index
             else find_entry_loop es cap k (MOD_CAPACITY cap ((index + 1) mod 2 ^ 32)) tombstone)
      else None)"

declare find_entry_loop.simps [code]

definition find_entry :: "heap \<Rightarrow> Entry list \<Rightarrow> nat \<Rightarrow> addr \<Rightarrow> nat option" where
  "find_entry h es cap k =
     (case string_at h k of
        None \<Rightarrow> None
      | Some s \<Rightarrow> find_entry_loop es cap k (MOD_CAPACITY cap (unat (hash s))) None)"

text \<open>
  \<^verbatim>\<open>adjust_capacity\<close>: a fresh array of empty entries, then every entry of the old array that
  has a key is re-inserted, in index order, and counted.
\<close>

fun reinsert :: "heap \<Rightarrow> Entry list \<Rightarrow> Entry list \<Rightarrow> nat \<Rightarrow> nat \<Rightarrow> (Entry list \<times> nat) option" where
  "reinsert h [] new cap n = Some (new, n)"
| "reinsert h (e # old) new cap n =
     (case key e of
        None \<Rightarrow> reinsert h old new cap n
      | Some k \<Rightarrow>
          (case find_entry h new cap k of
             None \<Rightarrow> None
           | Some d \<Rightarrow> reinsert h old (new[d := \<lparr>key = Some k, val = val e\<rparr>]) cap (n + 1)))"

definition adjust_capacity :: "heap \<Rightarrow> Table \<Rightarrow> nat \<Rightarrow> Table option" where
  "adjust_capacity h table cap =
     (case reinsert h (entries table) (replicate cap \<lparr>key = None, val = NIL_VAL\<rparr>) cap 0 of
        None \<Rightarrow> None
      | Some (es, n) \<Rightarrow> Some \<lparr>count = n, tcapacity = cap, entries = es\<rparr>)"

text \<open>
  \<^verbatim>\<open>table_get\<close> returns whether the key was found and the value through a pointer: the
  model returns \<open>Some v\<close> for found. The load test of \<^verbatim>\<open>table_set\<close> compares doubles,
  \<^verbatim>\<open>count + 1 > capacity * 0.75\<close>; both sides are exact for sizes below \<open>2 ^ 51\<close>, where
  the test is \<open>4 * (count + 1) > 3 * capacity\<close>.
\<close>

definition table_get :: "heap \<Rightarrow> Table \<Rightarrow> addr \<Rightarrow> Value option option" where
  "table_get h table k =
     (if count table = 0 then Some None
      else case find_entry h (entries table) (tcapacity table) k of
             None \<Rightarrow> None
           | Some i \<Rightarrow> (case key (entries table ! i) of
                          None \<Rightarrow> Some None
                        | Some _ \<Rightarrow> Some (Some (val (entries table ! i)))))"

definition table_set :: "heap \<Rightarrow> Table \<Rightarrow> addr \<Rightarrow> Value \<Rightarrow> (bool \<times> Table) option" where
  "table_set h table k v =
     (case (if 4 * (count table + 1) > 3 * tcapacity table
            then adjust_capacity h table (GROW_TABLE_CAPACITY (tcapacity table))
            else Some table) of
        None \<Rightarrow> None
      | Some t \<Rightarrow>
          (case find_entry h (entries t) (tcapacity t) k of
             None \<Rightarrow> None
           | Some i \<Rightarrow>
               let entry = entries t ! i;
                   is_new_key = (key entry = None);
                   t1 = (if is_new_key \<and> IS_NIL (val entry) then t\<lparr>count := count t + 1\<rparr> else t)
               in Some (is_new_key, t1\<lparr>entries := (entries t1)[i := \<lparr>key = Some k, val = v\<rparr>]\<rparr>)))"

definition table_delete :: "heap \<Rightarrow> Table \<Rightarrow> addr \<Rightarrow> (bool \<times> Table) option" where
  "table_delete h table k =
     (if count table = 0 then Some (False, table)
      else case find_entry h (entries table) (tcapacity table) k of
             None \<Rightarrow> None
           | Some i \<Rightarrow>
               (case key (entries table ! i) of
                  None \<Rightarrow> Some (False, table)
                | Some _ \<Rightarrow> Some (True, table\<lparr>entries := (entries table)[i := \<lparr>key = None, val = BOOL_VAL True\<rparr>]\<rparr>)))"

text \<open>
  \<^verbatim>\<open>table_find_string\<close> compares by length, hash and bytes; its loop is unbounded like that
  of \<^verbatim>\<open>find_entry\<close>. The result \<open>Some None\<close> is the null pointer.
\<close>

partial_function (option) find_string_loop ::
  "heap \<Rightarrow> Entry list \<Rightarrow> nat \<Rightarrow> string \<Rightarrow> uint32 \<Rightarrow> nat \<Rightarrow> addr option option" where
  "find_string_loop h es cap cs hsh index =
     (if index < length es then
        (case key (es ! index) of
           None \<Rightarrow>
             if IS_NIL (val (es ! index)) then Some None
             else find_string_loop h es cap cs hsh (MOD_CAPACITY cap ((index + 1) mod 2 ^ 32))
         | Some k \<Rightarrow>
             (case string_at h k of
                None \<Rightarrow> None
              | Some s \<Rightarrow>
                  if length (chars s) = length cs \<and> hash s = hsh \<and> chars s = cs then Some (Some k)
                  else find_string_loop h es cap cs hsh (MOD_CAPACITY cap ((index + 1) mod 2 ^ 32))))
      else None)"

declare find_string_loop.simps [code]

definition table_find_string :: "heap \<Rightarrow> Table \<Rightarrow> string \<Rightarrow> uint32 \<Rightarrow> addr option option" where
  "table_find_string h table cs hsh =
     (if count table = 0 then Some None
      else find_string_loop h (entries table) (tcapacity table) cs hsh
             (MOD_CAPACITY (tcapacity table) (unat hsh)))"

section \<open>The virtual machine state and string interning (vm.h, object.c)\<close>

text \<open>
  \<^verbatim>\<open>vm.stack\<close> is a fixed array and \<^verbatim>\<open>vm.stack_top\<close> points past its used part; \<open>stack\<close> is
  the used part, bottom first, so \<^verbatim>\<open>stack_top - stack\<close> is its length. A call frame's \<^verbatim>\<open>ip\<close>
  is an index into the code of its function and \<^verbatim>\<open>slots\<close> an index into the stack.
  Allocation takes the next unused address \<open>next_addr\<close>; the byte counters and the
  collector are modelled on their own in the section on memory.c. What the machine prints
  is kept as lists of records in \<open>stdout\<close> and \<open>stderr\<close>.
\<close>

record CallFrame =
  closure :: addr
  ip :: nat
  slots :: nat

datatype Diagnostic =
    CompileError int string string
  | RuntimeError string "int list" "string list"
  | TraceLine "int option" "string option"

record VM =
  frames :: "CallFrame list"
  stack :: "Value list"
  strings :: Table
  init_string :: "addr option"
  globals :: Table
  open_upvalues :: "addr option"
  heap :: heap
  next_addr :: addr
  stdout :: "string list"
  stderr :: "Diagnostic list"

definition push :: "VM \<Rightarrow> Value \<Rightarrow> VM" where
  "push vm v = vm\<lparr>stack := stack vm @ [v]\<rparr>"

text \<open>\<^verbatim>\<open>pop\<close> on the empty stack reads below the array: no result.\<close>

definition pop :: "VM \<Rightarrow> (Value \<times> VM) option" where
  "pop vm = (if stack vm = [] then None else Some (last (stack vm), vm\<lparr>stack := butlast (stack vm)\<rparr>))"

definition allocate_object :: "VM \<Rightarrow> LoxObj \<Rightarrow> addr \<times> VM" where
  "allocate_object vm obj =
     (let a = next_addr vm
      in (a, vm\<lparr>heap := (a, obj) # heap vm, next_addr := a + 1\<rparr>))"

definition allocate_string :: "VM \<Rightarrow> string \<Rightarrow> uint32 \<Rightarrow> (addr \<times> VM) option" where
  "allocate_string vm cs h =
     (case allocate_object vm (LOX_STRING \<lparr>chars = cs, hash = h\<rparr>) of
        (a, vm1) \<Rightarrow>
          (let vm2 = push vm1 (OBJ_VAL a) in
           case table_set (heap vm2) (strings vm2) a NIL_VAL of
             None \<Rightarrow> None
           | Some (_, t) \<Rightarrow>
               (case pop (vm2\<lparr>strings := t\<rparr>) of
                  None \<Rightarrow> None
                | Some (_, vm3) \<Rightarrow> Some (a, vm3))))"

text \<open>
  \<^verbatim>\<open>take_string\<close> owns the buffer it is given and frees it when the string is already
  interned; \<^verbatim>\<open>copy_string\<close> copies the bytes first. On the contents they agree.
\<close>

definition take_string :: "VM \<Rightarrow> string \<Rightarrow> (addr \<times> VM) option" where
  "take_string vm cs =
     (let h = hash_string cs in
      case table_find_string (heap vm) (strings vm) cs h of
        None \<Rightarrow> None
      | Some (Some interned) \<Rightarrow> Some (interned, vm)
      | Some None \<Rightarrow> allocate_string vm cs h)"

definition copy_string :: "VM \<Rightarrow> string \<Rightarrow> (addr \<times> VM) option" where
  "copy_string vm cs =
     (let h = hash_string cs in
      case table_find_string (heap vm) (strings vm) cs h of
        None \<Rightarrow> None
      | Some (Some interned) \<Rightarrow> Some (interned, vm)
      | Some None \<Rightarrow> allocate_string vm cs h)"

text \<open>
  \<^verbatim>\<open>init_vm\<close> (vm.c) starts from the zero-initialised global \<^verbatim>\<open>vm\<close>: it empties the stack
  and the tables, interns \<^verbatim>\<open>"init"\<close> and defines the three native functions as globals.
  \<^verbatim>\<open>define_native\<close> reads the name and the function back from \<^verbatim>\<open>vm.stack[0]\<close> and
  \<^verbatim>\<open>vm.stack[1]\<close>.
\<close>

definition reset_stack :: "VM \<Rightarrow> VM" where
  "reset_stack vm = vm\<lparr>stack := [], frames := [], open_upvalues := None\<rparr>"

definition new_native :: "VM \<Rightarrow> NativeFn \<Rightarrow> addr \<times> VM" where
  "new_native vm fn = allocate_object vm (LOX_NATIVE fn)"

definition define_native :: "string \<Rightarrow> NativeFn \<Rightarrow> VM \<Rightarrow> VM option" where
  "define_native name fn vm =
     (case copy_string vm name of
        None \<Rightarrow> None
      | Some (n, vm1) \<Rightarrow>
          (case new_native (push vm1 (OBJ_VAL n)) fn of
             (f, vm2) \<Rightarrow>
               (let vm3 = push vm2 (OBJ_VAL f) in
                case stack vm3 of
                  OBJ_VAL k # v # _ \<Rightarrow>
                    (case table_set (heap vm3) (globals vm3) k v of
                       None \<Rightarrow> None
                     | Some (_, g) \<Rightarrow>
                         (case pop (vm3\<lparr>globals := g\<rparr>) of
                            None \<Rightarrow> None
                          | Some (_, vm4) \<Rightarrow> map_option snd (pop vm4)))
                | _ \<Rightarrow> None)))"

definition zero_vm :: VM where
  "zero_vm = \<lparr>frames = [], stack = [], strings = init_table, init_string = None,
     globals = init_table, open_upvalues = None, heap = [], next_addr = 1,
     stdout = [], stderr = []\<rparr>"

definition init_vm :: "VM option" where
  "init_vm =
     (case copy_string ((reset_stack zero_vm)\<lparr>strings := init_table, init_string := None\<rparr>) ''init'' of
        None \<Rightarrow> None
      | Some (i, vm1) \<Rightarrow>
          (case define_native ''clock'' clock_native (vm1\<lparr>init_string := Some i, globals := init_table\<rparr>) of
             None \<Rightarrow> None
           | Some vm2 \<Rightarrow>
               (case define_native ''print'' print_native vm2 of
                  None \<Rightarrow> None
                | Some vm3 \<Rightarrow> define_native ''println'' println_native vm3)))"

section \<open>Memory accounting and the collection trigger (memory.c, memory.h)\<close>

text \<open>
  The two counters of the machine that \<^verbatim>\<open>reallocate\<close> and \<^verbatim>\<open>collect_garbage\<close> maintain,
  \<^verbatim>\<open>vm.bytes_allocated\<close> and \<^verbatim>\<open>vm.next_gc\<close>, both \<^verbatim>\<open>size_t\<close>: 64-bit words whose arithmetic
  wraps. \<open>collections\<close> is not in the source: it counts the calls of \<^verbatim>\<open>collect_garbage\<close>, so
  that "a collection runs" can be stated.
\<close>

record gc_counters =
  bytes_allocated :: size_t
  next_gc :: size_t
  collections :: nat


text \<open>
  Which objects a collection frees depends on the object graph, which this section leaves
  out: a \<open>gc_plan\<close> lists, in order, the sizes of the blocks that the sweep of one
  collection hands to \<^verbatim>\<open>FREE\<close> or \<^verbatim>\<open>FREE_ARRAY\<close>, that is to \<^verbatim>\<open>reallocate(ptr, size, 0)\<close>.
  That call runs the threshold test of \<^verbatim>\<open>reallocate\<close> again, so it can start a collection
  inside the sweep: each block comes with the plan of that nested collection. Marking and
  \<^verbatim>\<open>table_remove_white\<close> do not call \<^verbatim>\<open>reallocate\<close> (the gray stack grows with the C
  library's \<^verbatim>\<open>realloc\<close>).

  \<^verbatim>\<open>GC_HEAP_GROW_FACTOR\<close> is the macro \<^verbatim>\<open>3/2\<close>: the assignment
  \<^verbatim>\<open>vm.next_gc = vm.bytes_allocated * GC_HEAP_GROW_FACTOR\<close> expands to
  \<^verbatim>\<open>vm.bytes_allocated * 3/2\<close>, the product first, then the division.
\<close>

datatype gc_plan = Plan "(size_t \<times> gc_plan) list"

fun collect_garbage :: "gc_plan \<Rightarrow> gc_counters \<Rightarrow> gc_counters"
  and sweep :: "(size_t \<times> gc_plan) list \<Rightarrow> gc_counters \<Rightarrow> gc_counters"
  and free_block :: "size_t \<Rightarrow> gc_plan \<Rightarrow> gc_counters \<Rightarrow> gc_counters" where
  "collect_garbage (Plan blocks) vm =
     (let vm1 = sweep blocks vm
      in vm1\<lparr>next_gc := bytes_allocated vm1 * 3 div 2, collections := collections vm1 + 1\<rparr>)"
| "sweep [] vm = vm"
| "sweep ((old_size, p) # blocks) vm = sweep blocks (free_block old_size p vm)"
| "free_block old_size p vm =
     (let vm1 = vm\<lparr>bytes_allocated := bytes_allocated vm + (0 - old_size)\<rparr>
      in if bytes_allocated vm1 > next_gc vm1 then collect_garbage p vm1 else vm1)"

text \<open>
  \<^verbatim>\<open>reallocate\<close> on the counters. \<open>stress\<close> says whether \<^verbatim>\<open>CLOX_STRESS_GC\<close> is defined;
  \<open>p1\<close> is the plan of the collection of the stress branch and \<open>p2\<close> that of the threshold
  branch, should they run.
\<close>

definition reallocate :: "bool \<Rightarrow> gc_plan \<Rightarrow> gc_plan \<Rightarrow> size_t \<Rightarrow> size_t \<Rightarrow> gc_counters \<Rightarrow> gc_counters" where
  "reallocate stress p1 p2 old_size new_size vm =
     (let vm1 = vm\<lparr>bytes_allocated := bytes_allocated vm + (new_size - old_size)\<rparr>;
          vm2 = (if stress \<and> new_size > old_size then collect_garbage p1 vm1 else vm1)
      in if bytes_allocated vm2 > next_gc vm2 then collect_garbage p2 vm2 else vm2)"

section \<open>The lexer (lexer.c)\<close>

datatype TokenType =
    TOKEN_LEFT_PAREN | TOKEN_RIGHT_PAREN | TOKEN_LEFT_BRACE | TOKEN_RIGHT_BRACE
  | TOKEN_COMMA | TOKEN_DOT | TOKEN_MINUS | TOKEN_PLUS | TOKEN_SEMICOLON | TOKEN_STAR | TOKEN_SLASH
  | TOKEN_BANG | TOKEN_EQUAL | TOKEN_BANG_EQUAL | TOKEN_EQUAL_EQUAL
  | TOKEN_GREATER | TOKEN_GREATER_EQUAL | TOKEN_LESS | TOKEN_LESS_EQUAL
  | TOKEN_IDENTIFIER | TOKEN_STRING | TOKEN_FLOAT64 | TOKEN_INT
  | TOKEN_AND | TOKEN_BREAK | TOKEN_CLASS | TOKEN_ELSE | TOKEN_FALSE | TOKEN_FOR | TOKEN_FUN
  | TOKEN_IF | TOKEN_NIL | TOKEN_OR | TOKEN_RETURN | TOKEN_SUPER | TOKEN_THIS | TOKEN_TRUE
  | TOKEN_VAR | TOKEN_WHILE | TOKEN_ERROR | TOKEN_EOF

text \<open>
  A token's \<^verbatim>\<open>start\<close> pointer and \<^verbatim>\<open>length\<close> delimit its text: the model keeps the text
  itself as \<open>lexeme\<close> (for an error token, the message).
\<close>

record Token =
  ttype :: TokenType
  lexeme :: string
  line :: int

text \<open>
  The lexer's \<^verbatim>\<open>start\<close> and \<^verbatim>\<open>current\<close> pointers are indices into the source. The source is
  a C string: the byte at index \<open>length source\<close> is the terminating NUL.
\<close>

record Lexer =
  source :: string
  start :: nat
  lcurrent :: nat
  lline :: int

definition init_lexer :: "string \<Rightarrow> Lexer" where
  "init_lexer src = \<lparr>source = src, start = 0, lcurrent = 0, lline = 1\<rparr>"

definition char_at :: "string \<Rightarrow> nat \<Rightarrow> char" where
  "char_at src i = (if i < length src then src ! i else CHR 0x00)"

definition is_at_end :: "Lexer \<Rightarrow> bool" where
  "is_at_end lx = (char_at (source lx) (lcurrent lx) = CHR 0x00)"

definition make_token :: "Lexer \<Rightarrow> TokenType \<Rightarrow> Token" where
  "make_token lx t =
     \<lparr>ttype = t, lexeme = take (lcurrent lx - start lx) (drop (start lx) (source lx)), line = lline lx\<rparr>"

definition error_token :: "Lexer \<Rightarrow> string \<Rightarrow> Token" where
  "error_token lx message = \<lparr>ttype = TOKEN_ERROR, lexeme = message, line = lline lx\<rparr>"

definition ladvance :: "Lexer \<Rightarrow> Lexer" where
  "ladvance lx = lx\<lparr>lcurrent := lcurrent lx + 1\<rparr>"

definition peek :: "Lexer \<Rightarrow> char" where
  "peek lx = char_at (source lx) (lcurrent lx)"

definition peek_next :: "Lexer \<Rightarrow> char" where
  "peek_next lx = (if is_at_end lx then CHR 0x00 else char_at (source lx) (lcurrent lx + 1))"

definition lmatch :: "Lexer \<Rightarrow> char \<Rightarrow> bool \<times> Lexer" where
  "lmatch lx expected =
     (if is_at_end lx then (False, lx)
      else if peek lx \<noteq> expected then (False, lx)
      else (True, ladvance lx))"

definition is_digit :: "char \<Rightarrow> bool" where
  "is_digit c = (of_char c \<ge> (of_char CHR ''0'' :: nat) \<and> of_char c \<le> (of_char CHR ''9'' :: nat))"

definition is_alpha :: "char \<Rightarrow> bool" where
  "is_alpha c =
     ((of_char c \<ge> (of_char CHR ''a'' :: nat) \<and> of_char c \<le> (of_char CHR ''z'' :: nat)) \<or>
      (of_char c \<ge> (of_char CHR ''A'' :: nat) \<and> of_char c \<le> (of_char CHR ''Z'' :: nat)) \<or>
      c = CHR ''_'')"

text \<open>
  The loops of the lexer advance \<^verbatim>\<open>current\<close> and stop at the terminating NUL at the
  latest, so they are recursive functions whose measure is the distance to the end.
\<close>

lemma peek_not_nul_less: "peek lx \<noteq> CHR 0x00 \<Longrightarrow> lcurrent lx < length (source lx)"
  by (auto simp: peek_def char_at_def split: if_splits)

function skip_comment :: "Lexer \<Rightarrow> Lexer" where
  "skip_comment lx =
     (if peek lx \<noteq> CHR ''\<newline>'' \<and> \<not> is_at_end lx then skip_comment (ladvance lx) else lx)"
  by pat_completeness auto
termination
  by (relation "measure (\<lambda>lx. length (source lx) - lcurrent lx)")
     (auto simp: is_at_end_def ladvance_def char_at_def split: if_splits)

declare skip_comment.simps [simp del]

lemma skip_comment_measure: "lcurrent lx \<le> lcurrent (skip_comment lx)"
  by (induction lx rule: skip_comment.induct)
     (subst skip_comment.simps, auto simp: ladvance_def)

lemma skip_comment_source [simp]: "source (skip_comment lx) = source lx"
  by (induction lx rule: skip_comment.induct)
     (subst skip_comment.simps, auto simp: ladvance_def)

lemma skip_comment_bound:
  "lcurrent lx \<le> length (source lx) \<Longrightarrow> lcurrent (skip_comment lx) \<le> length (source lx)"
proof (induction lx rule: skip_comment.induct)
  case (1 lx)
  show ?case
  proof (cases "peek lx \<noteq> CHR ''\<newline>'' \<and> \<not> is_at_end lx")
    case True
    then have "lcurrent lx < length (source lx)"
      by (auto simp: is_at_end_def char_at_def split: if_splits)
    then have "lcurrent (ladvance lx) \<le> length (source (ladvance lx))"
      by (simp add: ladvance_def)
    with 1 True have "lcurrent (skip_comment (ladvance lx)) \<le> length (source (ladvance lx))"
      by blast
    moreover have "skip_comment lx = skip_comment (ladvance lx)"
      using True by (subst skip_comment.simps) simp
    ultimately show ?thesis by (simp add: ladvance_def)
  next
    case False
    then have "skip_comment lx = lx" by (subst skip_comment.simps) auto
    with 1 show ?thesis by simp
  qed
qed

lemma skip_comment_strict:
  assumes "peek lx = CHR ''/''"
  shows "lcurrent lx < lcurrent (skip_comment lx)"
proof -
  have "\<not> is_at_end lx" using assms by (simp add: is_at_end_def peek_def)
  then have "skip_comment lx = skip_comment (ladvance lx)"
    using assms by (subst skip_comment.simps) simp
  moreover have "lcurrent (ladvance lx) \<le> lcurrent (skip_comment (ladvance lx))"
    by (rule skip_comment_measure)
  ultimately show ?thesis by (simp add: ladvance_def)
qed

function skip_whitespace :: "Lexer \<Rightarrow> Lexer" where
  "skip_whitespace lx =
     (let c = peek lx in
      if c = CHR '' '' \<or> c = CHR 0x0D \<or> c = CHR 0x09 then skip_whitespace (ladvance lx)
      else if c = CHR ''\<newline>'' then skip_whitespace (ladvance (lx\<lparr>lline := lline lx + 1\<rparr>))
      else if c = CHR ''/'' then
        (if peek_next lx = CHR ''/'' then skip_whitespace (skip_comment lx) else lx)
      else lx)"
  by pat_completeness auto
termination
proof (relation "measure (\<lambda>lx. length (source lx) - lcurrent lx)", goal_cases)
  case 1
  show ?case by simp
next
  case (2 lx c)
  then have "peek lx \<noteq> CHR 0x00" by auto
  then have "lcurrent lx < length (source lx)" by (rule peek_not_nul_less)
  then show ?case by (simp add: ladvance_def)
next
  case (3 lx c)
  then have "peek lx \<noteq> CHR 0x00" by auto
  then have "lcurrent lx < length (source lx)" by (rule peek_not_nul_less)
  then show ?case by (simp add: ladvance_def)
next
  case (4 lx c)
  then have p: "peek lx = CHR ''/''" by simp
  then have "peek lx \<noteq> CHR 0x00" by simp
  then have less: "lcurrent lx < length (source lx)" by (rule peek_not_nul_less)
  have "lcurrent lx < lcurrent (skip_comment lx)" using p by (rule skip_comment_strict)
  moreover have "lcurrent (skip_comment lx) \<le> length (source lx)"
    using less by (intro skip_comment_bound) simp
  ultimately show ?case using less by simp
qed

declare skip_whitespace.simps [simp del]

function skip_digits :: "Lexer \<Rightarrow> Lexer" where
  "skip_digits lx =
     (if is_digit (peek lx) \<or> peek lx = CHR ''_'' then skip_digits (ladvance lx) else lx)"
  by pat_completeness auto
termination
proof (relation "measure (\<lambda>lx. length (source lx) - lcurrent lx)", goal_cases)
  case 1
  show ?case by simp
next
  case (2 lx)
  then have "peek lx \<noteq> CHR 0x00" by (auto simp: is_digit_def)
  then have "lcurrent lx < length (source lx)" by (rule peek_not_nul_less)
  then show ?case by (simp add: ladvance_def)
qed

declare skip_digits.simps [simp del]

text \<open>
  \<^verbatim>\<open>number\<close>, entered after \<^verbatim>\<open>lex_token\<close> has consumed the first digit. Its two optional
  parts either return an error token at once (\<open>Inl\<close>) or go on with the flag
  \<^verbatim>\<open>has_fraction\<close> or \<^verbatim>\<open>has_exponent\<close> and the advanced lexer (\<open>Inr\<close>).
\<close>

definition number_fraction :: "Lexer \<Rightarrow> (Token \<times> Lexer) + (bool \<times> Lexer)" where
  "number_fraction lx1 =
     (if peek lx1 = CHR ''.'' then
        (let lxa = ladvance lx1 in
         if \<not> is_digit (peek lxa) then Inl (error_token lxa ''Expect digit after decimal point.'', lxa)
         else Inr (True, skip_digits lxa))
      else Inr (False, lx1))"

definition number_exponent :: "Lexer \<Rightarrow> (Token \<times> Lexer) + (bool \<times> Lexer)" where
  "number_exponent lx2 =
     (if peek lx2 = CHR ''e'' \<or> peek lx2 = CHR ''E'' then
        (let lx3 = ladvance lx2; c = peek lx3 in
         if \<not> (is_digit c \<or> c = CHR ''+'' \<or> c = CHR ''-'')
         then Inl (error_token lx3 ''Expect number after exponent.'', lx3)
         else if \<not> is_digit c then
           (let lxb = ladvance lx3 in
            if \<not> is_digit (peek lxb) then Inl (error_token lxb ''Expect number after exponent.'', lxb)
            else Inr (True, skip_digits lxb))
         else Inr (True, skip_digits lx3))
      else Inr (False, lx2))"

definition number :: "Lexer \<Rightarrow> Token \<times> Lexer" where
  "number lx0 =
     (case number_fraction (skip_digits lx0) of
        Inl err \<Rightarrow> err
      | Inr (has_fraction, lx2) \<Rightarrow>
          (case number_exponent lx2 of
             Inl err \<Rightarrow> err
           | Inr (has_exponent, lx4) \<Rightarrow>
               if has_fraction \<or> has_exponent then (make_token lx4 TOKEN_FLOAT64, lx4)
               else (make_token lx4 TOKEN_INT, lx4)))"

function skip_string :: "Lexer \<Rightarrow> Lexer" where
  "skip_string lx =
     (if peek lx \<noteq> CHR 0x22 \<and> \<not> is_at_end lx
      then skip_string (ladvance (if peek lx = CHR ''\<newline>'' then lx\<lparr>lline := lline lx + 1\<rparr> else lx))
      else lx)"
  by pat_completeness auto
termination
proof (relation "measure (\<lambda>lx. length (source lx) - lcurrent lx)", goal_cases)
  case 1
  show ?case by simp
next
  case (2 lx)
  then have "peek lx \<noteq> CHR 0x00" by (auto simp: is_at_end_def peek_def)
  then have "lcurrent lx < length (source lx)" by (rule peek_not_nul_less)
  then show ?case by (simp add: ladvance_def)
qed

declare skip_string.simps [simp del]

text \<open>\<^verbatim>\<open>string\<close> of the lexer (the compiler has a function of the same name).\<close>

definition string_token :: "Lexer \<Rightarrow> Token \<times> Lexer" where
  "string_token lx0 =
     (let lx1 = skip_string lx0 in
      if is_at_end lx1 then (error_token lx1 ''Unterminated string.'', lx1)
      else (make_token (ladvance lx1) TOKEN_STRING, ladvance lx1))"

definition check_keyword :: "Lexer \<Rightarrow> nat \<Rightarrow> nat \<Rightarrow> string \<Rightarrow> TokenType \<Rightarrow> TokenType" where
  "check_keyword lx st len rest t =
     (if lcurrent lx - start lx = st + len \<and>
         take len (drop (start lx + st) (source lx)) = rest
      then t else TOKEN_IDENTIFIER)"

definition identifier_type :: "Lexer \<Rightarrow> TokenType" where
  "identifier_type lx =
     (let c0 = char_at (source lx) (start lx); c1 = char_at (source lx) (start lx + 1) in
      if c0 = CHR ''a'' then check_keyword lx 1 2 ''nd'' TOKEN_AND
      else if c0 = CHR ''b'' then check_keyword lx 1 4 ''reak'' TOKEN_BREAK
      else if c0 = CHR ''c'' then check_keyword lx 1 4 ''lass'' TOKEN_CLASS
      else if c0 = CHR ''e'' then check_keyword lx 1 3 ''lse'' TOKEN_ELSE
      else if c0 = CHR ''f'' then
        (if lcurrent lx - start lx > 1 then
           (if c1 = CHR ''a'' then check_keyword lx 2 3 ''lse'' TOKEN_FALSE
            else if c1 = CHR ''o'' then check_keyword lx 2 1 ''r'' TOKEN_FOR
            else if c1 = CHR ''u'' then check_keyword lx 2 1 ''n'' TOKEN_FUN
            else TOKEN_IDENTIFIER)
         else TOKEN_IDENTIFIER)
      else if c0 = CHR ''i'' then check_keyword lx 1 1 ''f'' TOKEN_IF
      else if c0 = CHR ''n'' then check_keyword lx 1 2 ''il'' TOKEN_NIL
      else if c0 = CHR ''o'' then check_keyword lx 1 1 ''r'' TOKEN_OR
      else if c0 = CHR ''r'' then check_keyword lx 1 5 ''eturn'' TOKEN_RETURN
      else if c0 = CHR ''s'' then check_keyword lx 1 4 ''uper'' TOKEN_SUPER
      else if c0 = CHR ''t'' then
        (if lcurrent lx - start lx > 1 then
           (if c1 = CHR ''h'' then check_keyword lx 2 2 ''is'' TOKEN_THIS
            else if c1 = CHR ''r'' then check_keyword lx 2 2 ''ue'' TOKEN_TRUE
            else TOKEN_IDENTIFIER)
         else TOKEN_IDENTIFIER)
      else if c0 = CHR ''v'' then check_keyword lx 1 2 ''ar'' TOKEN_VAR
      else if c0 = CHR ''w'' then check_keyword lx 1 4 ''hile'' TOKEN_WHILE
      else TOKEN_IDENTIFIER)"

function skip_identifier :: "Lexer \<Rightarrow> Lexer" where
  "skip_identifier lx =
     (if is_alpha (peek lx) \<or> is_digit (peek lx) then skip_identifier (ladvance lx) else lx)"
  by pat_completeness auto
termination
proof (relation "measure (\<lambda>lx. length (source lx) - lcurrent lx)", goal_cases)
  case 1
  show ?case by simp
next
  case (2 lx)
  then have "peek lx \<noteq> CHR 0x00" by (auto simp: is_digit_def is_alpha_def)
  then have "lcurrent lx < length (source lx)" by (rule peek_not_nul_less)
  then show ?case by (simp add: ladvance_def)
qed

declare skip_identifier.simps [simp del]

definition identifier_tok :: "Lexer \<Rightarrow> Token \<times> Lexer" where
  "identifier_tok lx0 = (let lx1 = skip_identifier lx0 in (make_token lx1 (identifier_type lx1), lx1))"

text \<open>
  \<^verbatim>\<open>lex_token\<close>; \<open>two_char\<close> is the pattern \<^verbatim>\<open>make_token(match('=') ? A : B)\<close> of its
  four two-character cases.
\<close>

definition two_char :: "Lexer \<Rightarrow> TokenType \<Rightarrow> TokenType \<Rightarrow> Token \<times> Lexer" where
  "two_char lx yes no =
     (case lmatch lx CHR ''='' of (m, lx1) \<Rightarrow> (make_token lx1 (if m then yes else no), lx1))"

definition lex_token :: "Lexer \<Rightarrow> Token \<times> Lexer" where
  "lex_token lx0 =
     (let lxw = skip_whitespace lx0; lx1 = lxw\<lparr>start := lcurrent lxw\<rparr> in
      if is_at_end lx1 then (make_token lx1 TOKEN_EOF, lx1)
      else
        let c = peek lx1; lx = ladvance lx1 in
        if is_alpha c then identifier_tok lx
        else if is_digit c then number lx
        else if c = CHR ''('' then (make_token lx TOKEN_LEFT_PAREN, lx)
        else if c = CHR '')'' then (make_token lx TOKEN_RIGHT_PAREN, lx)
        else if c = CHR ''{'' then (make_token lx TOKEN_LEFT_BRACE, lx)
        else if c = CHR ''}'' then (make_token lx TOKEN_RIGHT_BRACE, lx)
        else if c = CHR '';'' then (make_token lx TOKEN_SEMICOLON, lx)
        else if c = CHR '','' then (make_token lx TOKEN_COMMA, lx)
        else if c = CHR ''.'' then (make_token lx TOKEN_DOT, lx)
        else if c = CHR ''-'' then (make_token lx TOKEN_MINUS, lx)
        else if c = CHR ''+'' then (make_token lx TOKEN_PLUS, lx)
        else if c = CHR ''/'' then (make_token lx TOKEN_SLASH, lx)
        else if c = CHR ''*'' then (make_token lx TOKEN_STAR, lx)
        else if c = CHR ''!'' then two_char lx TOKEN_BANG_EQUAL TOKEN_BANG
        else if c = CHR ''='' then two_char lx TOKEN_EQUAL_EQUAL TOKEN_EQUAL
        else if c = CHR ''>'' then two_char lx TOKEN_GREATER_EQUAL TOKEN_GREATER
        else if c = CHR ''<'' then two_char lx TOKEN_LESS_EQUAL TOKEN_LESS
        else if c = CHR 0x22 then string_token lx
        else (error_token lx ''Unexpected character.'', lx))"

section \<open>The compiler (compiler.c)\<close>

datatype Precedence =
    PREC_NONE | PREC_ASSIGNMENT | PREC_OR | PREC_AND | PREC_EQUALITY | PREC_COMPARISON
  | PREC_TERM | PREC_FACTOR | PREC_UNARY | PREC_CALL | PREC_PRIMARY

record Parser =
  current :: Token
  previous :: Token
  had_error :: bool
  panic_mode :: bool

record Local =
  lname :: Token
  depth :: int
  is_captured :: bool

record Upvalue =
  index :: uint8
  is_local :: bool

datatype FunctionType = TYPE_FUNCTION | TYPE_INITIALIZER | TYPE_METHOD | TYPE_SCRIPT

text \<open>
  A \<^verbatim>\<open>Compiler\<close>: \<open>function\<close> is the pointer to the function object being built, which
  lives in the heap. The arrays \<^verbatim>\<open>locals\<close> and \<^verbatim>\<open>upvalues\<close> have \<^verbatim>\<open>UINT8_MAX\<close> elements;
  \<open>locals\<close> is the part below \<^verbatim>\<open>local_count\<close>, so \<^verbatim>\<open>local_count\<close> is its length, and
  \<open>upvalues\<close> the part that has been written. The chain of \<^verbatim>\<open>enclosing\<close> pointers from the
  global \<^verbatim>\<open>current\<close> is the list \<open>compilers\<close>, innermost first (empty for a null
  \<^verbatim>\<open>current\<close>); \<open>classes\<close> is the chain from \<^verbatim>\<open>current_class\<close> in the same way.
\<close>

definition UINT8_MAX :: nat where
  "UINT8_MAX = 255"

record Compiler =
  cfunction :: addr
  ftype :: FunctionType
  locals :: "Local list"
  upvalues :: "Upvalue list"
  scope_depth :: int

record ClassCompiler =
  has_superclass :: bool

text \<open>
  The state the compiler's functions share: the lexer, the parser, the two chains and the
  virtual machine (whose heap and string table the compiler allocates in). \<open>ub\<close> is set
  when a step has no defined result in C (a null \<^verbatim>\<open>current\<close>, a pointer that is not to a
  function, a table operation that does not return); what follows it means nothing.
\<close>

record cstate =
  lexer :: Lexer
  parser :: Parser
  compilers :: "Compiler list"
  classes :: "ClassCompiler list"
  machine :: VM
  ub :: bool

definition error_at :: "Token \<Rightarrow> string \<Rightarrow> cstate \<Rightarrow> cstate" where
  "error_at token message s =
     (if panic_mode (parser s) then s
      else s\<lparr>parser := (parser s)\<lparr>panic_mode := True, had_error := True\<rparr>,
              machine := (machine s)\<lparr>stderr := stderr (machine s) @
                 [CompileError (line token)
                    (if ttype token = TOKEN_EOF then '' at end''
                     else if ttype token = TOKEN_ERROR then []
                     else '' at '' @ [CHR 0x27] @ lexeme token @ [CHR 0x27])
                    message]\<rparr>\<rparr>)"

definition error :: "string \<Rightarrow> cstate \<Rightarrow> cstate" where
  "error message s = error_at (previous (parser s)) message s"

definition error_at_current :: "string \<Rightarrow> cstate \<Rightarrow> cstate" where
  "error_at_current message s = error_at (current (parser s)) message s"


definition update_function :: "(LoxFunction \<Rightarrow> LoxFunction) \<Rightarrow> cstate \<Rightarrow> cstate" where
  "update_function g s =
     (case compilers s of
        [] \<Rightarrow> s\<lparr>ub := True\<rparr>
      | c # _ \<Rightarrow>
          (case obj_at (heap (machine s)) (cfunction c) of
             Some (LOX_FUNCTION f) \<Rightarrow>
               s\<lparr>machine := (machine s)\<lparr>heap := AList.update (cfunction c) (LOX_FUNCTION (g f)) (heap (machine s))\<rparr>\<rparr>
           | _ \<Rightarrow> s\<lparr>ub := True\<rparr>))"

definition update_current :: "(Compiler \<Rightarrow> Compiler) \<Rightarrow> cstate \<Rightarrow> cstate" where
  "update_current g s =
     (case compilers s of
        [] \<Rightarrow> s\<lparr>ub := True\<rparr>
      | c # cs \<Rightarrow> s\<lparr>compilers := g c # cs\<rparr>)"





text \<open>The opcodes of chunk.h, numbered as the enumeration numbers them.\<close>

datatype OpCode =
    OP_RETURN | OP_TRUE | OP_FALSE | OP_NIL | OP_CONSTANT | OP_DEFINE_GLOBAL | OP_GET_GLOBAL
  | OP_SET_GLOBAL | OP_GET_LOCAL | OP_SET_LOCAL | OP_GET_UPVALUE | OP_SET_UPVALUE
  | OP_GET_PROPERTY | OP_SET_PROPERTY | OP_CLOSE_UPVALUE | OP_NOT | OP_NEGATE | OP_ADD | OP_SUB
  | OP_MUL | OP_DIV | OP_GREATER | OP_LESS | OP_EQUAL | OP_POP | OP_JUMP | OP_JUMP_IF_FALSE
  | OP_LOOP | OP_CALL | OP_CLOSURE | OP_CLASS | OP_METHOD | OP_INVOKE | OP_INHERIT
  | OP_GET_SUPER | OP_INVOKE_SUPER

definition opcodes :: "OpCode list" where
  "opcodes =
     [OP_RETURN, OP_TRUE, OP_FALSE, OP_NIL, OP_CONSTANT, OP_DEFINE_GLOBAL, OP_GET_GLOBAL,
      OP_SET_GLOBAL, OP_GET_LOCAL, OP_SET_LOCAL, OP_GET_UPVALUE, OP_SET_UPVALUE,
      OP_GET_PROPERTY, OP_SET_PROPERTY, OP_CLOSE_UPVALUE, OP_NOT, OP_NEGATE, OP_ADD, OP_SUB,
      OP_MUL, OP_DIV, OP_GREATER, OP_LESS, OP_EQUAL, OP_POP, OP_JUMP, OP_JUMP_IF_FALSE,
      OP_LOOP, OP_CALL, OP_CLOSURE, OP_CLASS, OP_METHOD, OP_INVOKE, OP_INHERIT,
      OP_GET_SUPER, OP_INVOKE_SUPER]"


definition decode :: "uint8 \<Rightarrow> OpCode option" where
  "decode b = (if unat b < length opcodes then Some (opcodes ! unat b) else None)"


text \<open>
  \<^verbatim>\<open>copy_string\<close> called from the compiler: the string is interned in the machine's table.
\<close>

definition copy_string_c :: "string \<Rightarrow> cstate \<Rightarrow> addr \<times> cstate" where
  "copy_string_c cs s =
     (case copy_string (machine s) cs of
        None \<Rightarrow> (0, s\<lparr>ub := True\<rparr>)
      | Some (a, vm1) \<Rightarrow> (a, s\<lparr>machine := vm1\<rparr>))"

definition new_function :: "cstate \<Rightarrow> addr \<times> cstate" where
  "new_function s =
     (case allocate_object (machine s)
             (LOX_FUNCTION \<lparr>arity = 0, upvalue_count = 0, chunk = init_chunk, fname = None\<rparr>) of
        (a, vm1) \<Rightarrow> (a, s\<lparr>machine := vm1\<rparr>))"

text \<open>
  A token made from a text alone, as \<^verbatim>\<open>synthetic_token\<close> and \<^verbatim>\<open>init_compiler\<close> make them:
  the source sets \<^verbatim>\<open>start\<close> and \<^verbatim>\<open>length\<close> and leaves \<^verbatim>\<open>type\<close> and \<^verbatim>\<open>line\<close> unset (they are
  never read); the model fills them with fixed values.
\<close>

definition synthetic_token :: "string \<Rightarrow> Token" where
  "synthetic_token text = \<lparr>ttype = TOKEN_IDENTIFIER, lexeme = text, line = 0\<rparr>"

text \<open>
  \<^verbatim>\<open>init_compiler\<close>: the new compiler becomes \<^verbatim>\<open>current\<close>, its function is named after the
  previous token unless it is the script, and slot 0 of its locals is reserved.
\<close>

definition init_compiler :: "FunctionType \<Rightarrow> cstate \<Rightarrow> cstate" where
  "init_compiler t s =
     (case new_function s of
        (fa, s1) \<Rightarrow>
          (let s2 = s1\<lparr>compilers :=
                      \<lparr>cfunction = fa, ftype = t, locals = [], upvalues = [], scope_depth = 0\<rparr>
                      # compilers s1\<rparr>;
               s3 = (if t \<noteq> TYPE_SCRIPT
                     then (case copy_string_c (lexeme (previous (parser s2))) s2 of
                             (n, s') \<Rightarrow> update_function (\<lambda>f. f\<lparr>fname := Some n\<rparr>) s')
                     else s2)
           in update_current
                (\<lambda>c. c\<lparr>locals := locals c @
                          [\<lparr>lname = synthetic_token (if t \<noteq> TYPE_FUNCTION then ''this'' else []),
                            depth = 0, is_captured = False\<rparr>]\<rparr>) s3))"

text \<open>\<^verbatim>\<open>add_local\<close>.\<close>

definition add_local :: "Token \<Rightarrow> cstate \<Rightarrow> cstate" where
  "add_local name s =
     (case compilers s of
        [] \<Rightarrow> s\<lparr>ub := True\<rparr>
      | c # _ \<Rightarrow>
          if length (locals c) = UINT8_MAX then error ''Too many local variables in scope.'' s
          else update_current
                 (\<lambda>c. c\<lparr>locals := locals c @ [\<lparr>lname = name, depth = - 1, is_captured = False\<rparr>]\<rparr>) s)"


section \<open>Upvalues (vm.c, object.c)\<close>

text \<open>
  The open upvalues are the objects linked through their \<^verbatim>\<open>next\<close> fields from
  \<^verbatim>\<open>vm.open_upvalues\<close>. The location of an open upvalue is a stack slot, compared as the C
  code compares the pointers; a pointer that is not to an upvalue, or the comparison of a
  closed upvalue's location with a stack slot, has no defined result. The walks along the
  \<^verbatim>\<open>next\<close> pointers have no bound of their own, so they are partial functions.
\<close>

definition upvalue_at :: "heap \<Rightarrow> addr \<Rightarrow> LoxUpvalue option" where
  "upvalue_at h a = (case obj_at h a of Some (LOX_UPVALUE u) \<Rightarrow> Some u | _ \<Rightarrow> None)"

definition slot_of :: "Location \<Rightarrow> nat option" where
  "slot_of l = (case l of Slot n \<Rightarrow> Some n | Closed \<Rightarrow> None)"

definition new_upvalue :: "VM \<Rightarrow> nat \<Rightarrow> addr \<times> VM" where
  "new_upvalue vm slot =
     allocate_object vm (LOX_UPVALUE \<lparr>location = Slot slot, closed = NIL_VAL, next_upvalue = None\<rparr>)"

text \<open>
  The \<^verbatim>\<open>while\<close> loop of \<^verbatim>\<open>capture_upvalue\<close>: it returns \<^verbatim>\<open>prev_upvalue\<close> and \<^verbatim>\<open>upvalue\<close> as
  they are when the loop ends.
\<close>

partial_function (option) capture_walk ::
  "heap \<Rightarrow> nat \<Rightarrow> addr option \<Rightarrow> addr option \<Rightarrow> (addr option \<times> addr option) option" where
  "capture_walk h local prev_upvalue upvalue =
     (if upvalue = None then Some (prev_upvalue, None)
      else
        (case Option.bind upvalue (upvalue_at h) of
           None \<Rightarrow> None
         | Some u \<Rightarrow>
             (case slot_of (location u) of
                None \<Rightarrow> None
              | Some n \<Rightarrow>
                  if n > local then capture_walk h local upvalue (next_upvalue u)
                  else Some (prev_upvalue, upvalue))))"

declare capture_walk.simps [code]

definition set_next :: "addr \<Rightarrow> addr option \<Rightarrow> VM \<Rightarrow> VM option" where
  "set_next a nxt vm =
     (case upvalue_at (heap vm) a of
        None \<Rightarrow> None
      | Some u \<Rightarrow> Some (vm\<lparr>heap := AList.update a (LOX_UPVALUE (u\<lparr>next_upvalue := nxt\<rparr>)) (heap vm)\<rparr>))"

definition capture_upvalue :: "VM \<Rightarrow> nat \<Rightarrow> (addr \<times> VM) option" where
  "capture_upvalue vm local =
     (case capture_walk (heap vm) local None (open_upvalues vm) of
        None \<Rightarrow> None
      | Some (prev_upvalue, upvalue) \<Rightarrow>
          (case (case upvalue of
                   None \<Rightarrow> None
                 | Some a \<Rightarrow> (case upvalue_at (heap vm) a of
                                None \<Rightarrow> None
                              | Some u \<Rightarrow> if location u = Slot local then Some a else None)) of
             Some a \<Rightarrow> Some (a, vm)
           | None \<Rightarrow>
               (case new_upvalue vm local of
                  (created_upvalue, vm1) \<Rightarrow>
                    (case set_next created_upvalue upvalue vm1 of
                       None \<Rightarrow> None
                     | Some vm2 \<Rightarrow>
                         (case prev_upvalue of
                            None \<Rightarrow> Some (created_upvalue, vm2\<lparr>open_upvalues := Some created_upvalue\<rparr>)
                          | Some p \<Rightarrow>
                              map_option (Pair created_upvalue) (set_next p (Some created_upvalue) vm2))))))"

text \<open>
  \<^verbatim>\<open>close_upvalues\<close>: every open upvalue at or above \<open>last\<close> takes the value of its slot,
  points to its own \<^verbatim>\<open>closed\<close> field and leaves the list. Reading a slot outside the used
  stack has no defined result.
\<close>

partial_function (option) close_upvalues :: "VM \<Rightarrow> nat \<Rightarrow> VM option" where
  "close_upvalues vm last_slot =
     (case open_upvalues vm of
        None \<Rightarrow> Some vm
      | Some a \<Rightarrow>
          (case upvalue_at (heap vm) a of
             None \<Rightarrow> None
           | Some u \<Rightarrow>
               (case slot_of (location u) of
                  None \<Rightarrow> None
                | Some n \<Rightarrow>
                    if n \<ge> last_slot then
                      (if n < length (stack vm) then
                         close_upvalues
                           (vm\<lparr>heap := AList.update a
                                   (LOX_UPVALUE (u\<lparr>closed := stack vm ! n, location := Closed\<rparr>)) (heap vm),
                               open_upvalues := next_upvalue u\<rparr>) last_slot
                       else None)
                    else Some vm)))"

declare close_upvalues.simps [code]

text \<open>
  The list of open upvalues read off the heap: \<open>open_list h p l\<close> says that the chain from
  the pointer \<open>p\<close> consists of the upvalues at the addresses in \<open>l\<close>, each open on the slot
  paired with its address, and ends with the null pointer.
\<close>

fun open_list :: "heap \<Rightarrow> addr option \<Rightarrow> (addr \<times> nat) list \<Rightarrow> bool" where
  "open_list h p [] = (p = None)"
| "open_list h p ((a, n) # rest) =
     (p = Some a \<and>
      (case upvalue_at h a of
         None \<Rightarrow> False
       | Some u \<Rightarrow> location u = Slot n \<and> open_list h (next_upvalue u) rest))"

text \<open>Every object of the heap lies below the next address to be allocated.\<close>

definition heap_bounded :: "VM \<Rightarrow> bool" where
  "heap_bounded vm = list_all (\<lambda>(a, obj). a < next_addr vm) (heap vm)"

section \<open>Concrete states\<close>

text \<open>
  States on which the theorems below are evaluated. \<open>script_state tok\<close> is the compiler
  state at the top level of a script, on the machine \<^verbatim>\<open>init_vm\<close> leaves, when \<open>tok\<close> is the
  token the parser has just consumed; \<open>locals_state n\<close> is such a state whose compiler
  holds \<open>n\<close> locals.
\<close>

definition vm0 :: VM where
  "vm0 = (case init_vm of Some m \<Rightarrow> m | None \<Rightarrow> zero_vm)"

definition script_state :: "Token \<Rightarrow> cstate" where
  "script_state tok =
     init_compiler TYPE_SCRIPT
       \<lparr>lexer = init_lexer [],
        parser = \<lparr>current = tok, previous = tok, had_error = False, panic_mode = False\<rparr>,
        compilers = [], classes = [], machine = vm0, ub = False\<rparr>"

definition tok_x :: Token where
  "tok_x = \<lparr>ttype = TOKEN_IDENTIFIER, lexeme = ''x'', line = 1\<rparr>"


definition locals_state :: "nat \<Rightarrow> cstate" where
  "locals_state n =
     update_current (\<lambda>c. c\<lparr>locals := replicate n \<lparr>lname = tok_x, depth = 0, is_captured = False\<rparr>\<rparr>)
       (script_state tok_x)"

text \<open>
  \<open>upvalue_vm\<close> is a machine with four stack slots and two open upvalues, on slots 3 and 1.
\<close>

definition upvalue_vm :: VM where
  "upvalue_vm =
     vm0\<lparr>stack := [NIL_VAL, NIL_VAL, NIL_VAL, NIL_VAL],
         heap := (9, LOX_UPVALUE \<lparr>location = Slot 1, closed = NIL_VAL, next_upvalue = None\<rparr>) #
                 (8, LOX_UPVALUE \<lparr>location = Slot 3, closed = NIL_VAL, next_upvalue = Some 9\<rparr>) #
                 heap vm0,
         next_addr := 10,
         open_upvalues := Some 8\<rparr>"

section \<open>Properties\<close>

text \<open>
  C6. The specification asks that the hash stored with a string be the FNV-1a hash of its
  bytes, with offset basis 2166136261. The source's comment names FNV-1a too, but the
  constant it starts from is 216613626: for the empty string (the literal \<^verbatim>\<open>""\<close>) the
  stored hash is 216613626 and the FNV-1a hash is 2166136261, and for the one-byte
  string \<^verbatim>\<open>a\<close> the two differ as well.
\<close>

theorem hash_string_not_fnv1a:
  "hash_string [] = 216613626 \<and> fnv1a_spec [] = 2166136261 \<and>
   hash_string [] \<noteq> fnv1a_spec [] \<and> hash_string ''a'' \<noteq> fnv1a_spec ''a''"
  by (simp add: hash_string_def fnv1a_spec_def hash_step_def)

subsection \<open>Facts about the emitters\<close>


lemma obj_at_update [simp]:
  "obj_at (AList.update a v h) b = (if b = a then Some v else obj_at h b)"
  by (simp add: obj_at_def update_conv')



lemma vals_write_value_array [simp]: "vals (write_value_array a v) = vals a @ [v]"
  by (simp add: write_value_array_def Let_def)

lemma write_chunk_fields [simp]:
  "code (write_chunk c b l) = code c @ [b]"
  "lines (write_chunk c b l) = lines c @ [l]"
  "constants (write_chunk c b l) = constants c"
  by (simp_all add: write_chunk_def Let_def)




subsection \<open>Evaluation of the concrete states\<close>

lemma replicate_8: "replicate 8 x = [x, x, x, x, x, x, x, x]"
  by (simp add: numeral_eq_Suc)

lemmas table_eval = replicate_8
  table_find_string_def find_string_loop.simps table_set_def table_get_def init_table_def
  adjust_capacity_def GROW_TABLE_CAPACITY_def find_entry_def string_at_def obj_at_def
  MOD_CAPACITY_def find_entry_loop.simps Let_def

lemmas vm_eval =
  init_vm_def define_native_def new_native_def allocate_object_def reset_stack_def zero_vm_def
  copy_string_def take_string_def allocate_string_def push_def pop_def hash_string_def
  hash_step_def

lemma init_vm_value:
  "init_vm = Some
     \<lparr>frames = [], stack = [],
      strings = \<lparr>count = 4, tcapacity = 8,
         entries = [\<lparr>key = Some 1, val = NIL_VAL\<rparr>, \<lparr>key = None, val = NIL_VAL\<rparr>,
                    \<lparr>key = None, val = NIL_VAL\<rparr>, \<lparr>key = None, val = NIL_VAL\<rparr>,
                    \<lparr>key = Some 2, val = NIL_VAL\<rparr>, \<lparr>key = Some 4, val = NIL_VAL\<rparr>,
                    \<lparr>key = None, val = NIL_VAL\<rparr>, \<lparr>key = Some 6, val = NIL_VAL\<rparr>]\<rparr>,
      init_string = Some 1,
      globals = \<lparr>count = 3, tcapacity = 8,
         entries = [\<lparr>key = None, val = NIL_VAL\<rparr>, \<lparr>key = None, val = NIL_VAL\<rparr>,
                    \<lparr>key = None, val = NIL_VAL\<rparr>, \<lparr>key = None, val = NIL_VAL\<rparr>,
                    \<lparr>key = Some 2, val = OBJ_VAL 3\<rparr>, \<lparr>key = Some 4, val = OBJ_VAL 5\<rparr>,
                    \<lparr>key = None, val = NIL_VAL\<rparr>, \<lparr>key = Some 6, val = OBJ_VAL 7\<rparr>]\<rparr>,
      open_upvalues = None,
      heap = [(7, LOX_NATIVE println_native),
              (6, LOX_STRING \<lparr>chars = ''println'', hash = 1706250007\<rparr>),
              (5, LOX_NATIVE print_native),
              (4, LOX_STRING \<lparr>chars = ''print'', hash = 2161829181\<rparr>),
              (3, LOX_NATIVE clock_native),
              (2, LOX_STRING \<lparr>chars = ''clock'', hash = 3651998644\<rparr>),
              (1, LOX_STRING \<lparr>chars = ''init'', hash = 1188225104\<rparr>)],
      next_addr = 8, stdout = [], stderr = []\<rparr>"
  by (simp add: vm_eval table_eval)

lemmas vm0_value = vm0_def [unfolded init_vm_value option.case]

lemmas script_state_eval =
  script_state_def init_compiler_def new_function_def allocate_object_def update_current_def
  vm0_value

subsection \<open>The limit on locals\<close>

lemma locals_state_compilers:
  "compilers (locals_state n) =
     [\<lparr>cfunction = 8, ftype = TYPE_SCRIPT,
       locals = replicate n \<lparr>lname = tok_x, depth = 0, is_captured = False\<rparr>,
       upvalues = [], scope_depth = 0\<rparr>]"
  by (simp add: locals_state_def script_state_eval)

lemma locals_state_parser:
  "parser (locals_state n) = \<lparr>current = tok_x, previous = tok_x, had_error = False, panic_mode = False\<rparr>"
  by (simp add: locals_state_def script_state_eval)

lemma locals_state_stderr: "stderr (machine (locals_state n)) = []"
  by (simp add: locals_state_def script_state_eval)

text \<open>
  C8, as the specification states it: the locals array holds at most 256 entries, and
  declaring a local succeeds while fewer than 256 exist. With 255 locals (fewer than 256)
  \<^verbatim>\<open>add_local\<close> adds nothing and reports the error.
\<close>

theorem add_local_256_counterexample:
  "length (locals (hd (compilers (locals_state 255)))) = 255 \<and> (255 :: nat) < 256 \<and>
   compilers (add_local tok_x (locals_state 255)) = compilers (locals_state 255) \<and>
   had_error (parser (add_local tok_x (locals_state 255))) \<and>
   stderr (machine (add_local tok_x (locals_state 255))) =
     [CompileError 1 ('' at '' @ [CHR 0x27] @ ''x'' @ [CHR 0x27]) ''Too many local variables in scope.'']"
  by (simp add: add_local_def locals_state_compilers locals_state_parser locals_state_stderr
      UINT8_MAX_def error_def error_at_def tok_x_def)

text \<open>
  C8, amended: the array has \<^verbatim>\<open>UINT8_MAX\<close> = 255 elements. While the current compiler holds
  fewer than 255 locals, \<^verbatim>\<open>add_local\<close> appends the new local (uninitialised, not captured)
  and changes nothing else; with 255 locals it only reports the error 'Too many local
  variables in scope.' (a report that panic mode suppresses), so the array never holds
  more than 255 entries and is never written past its end.
\<close>

theorem add_local_limit:
  assumes "compilers s = c # cs"
  shows "UINT8_MAX = 255 \<and>
     (length (locals c) < UINT8_MAX \<longrightarrow>
        add_local name s =
          s\<lparr>compilers := c\<lparr>locals := locals c @ [\<lparr>lname = name, depth = - 1, is_captured = False\<rparr>]\<rparr> # cs\<rparr>) \<and>
     (length (locals c) = UINT8_MAX \<longrightarrow>
        add_local name s = error ''Too many local variables in scope.'' s \<and>
        compilers (add_local name s) = compilers s \<and>
        (\<not> panic_mode (parser s) \<longrightarrow>
           had_error (parser (add_local name s)) \<and>
           stderr (machine (add_local name s)) = stderr (machine s) @
             [CompileError (line (previous (parser s)))
                (if ttype (previous (parser s)) = TOKEN_EOF then '' at end''
                 else if ttype (previous (parser s)) = TOKEN_ERROR then []
                 else '' at '' @ [CHR 0x27] @ lexeme (previous (parser s)) @ [CHR 0x27])
                ''Too many local variables in scope.''])) \<and>
     (length (locals c) \<le> UINT8_MAX \<longrightarrow>
        length (locals (hd (compilers (add_local name s)))) \<le> UINT8_MAX)"
proof (cases "length (locals c) = UINT8_MAX")
  case True
  then have "add_local name s = error ''Too many local variables in scope.'' s"
    using assms by (simp add: add_local_def)
  then show ?thesis
    using True assms by (simp add: error_def error_at_def UINT8_MAX_def)
next
  case False
  then have "add_local name s =
      s\<lparr>compilers := c\<lparr>locals := locals c @ [\<lparr>lname = name, depth = - 1, is_captured = False\<rparr>]\<rparr> # cs\<rparr>"
    using assms by (simp add: add_local_def update_current_def)
  then show ?thesis
    using False by (simp add: UINT8_MAX_def)
qed

theorem add_local_limit_witness:
  "length (locals (hd (compilers (add_local tok_x (locals_state 254))))) = 255 \<and>
   length (locals (hd (compilers (add_local tok_x (locals_state 255))))) = 255 \<and>
   had_error (parser (add_local tok_x (locals_state 255))) \<and>
   \<not> had_error (parser (add_local tok_x (locals_state 254)))"
proof -
  let ?l = "\<lparr>lname = tok_x, depth = 0, is_captured = False\<rparr>"
  let ?c = "\<lambda>n. \<lparr>cfunction = 8, ftype = TYPE_SCRIPT, locals = replicate n ?l,
       upvalues = [], scope_depth = 0\<rparr>"
  have a: "add_local tok_x (locals_state 254) =
      (locals_state 254)\<lparr>compilers :=
         (?c 254)\<lparr>locals := locals (?c 254) @ [\<lparr>lname = tok_x, depth = - 1, is_captured = False\<rparr>]\<rparr> # []\<rparr>"
    using add_local_limit [OF locals_state_compilers, of 254 tok_x]
    by (simp add: UINT8_MAX_def)
  have full: "length (locals (?c 255)) = UINT8_MAX"
    by (simp add: UINT8_MAX_def)
  have quiet: "\<not> panic_mode (parser (locals_state 255))"
    by (simp add: locals_state_parser)
  note at_limit = add_local_limit [OF locals_state_compilers, of 255 tok_x,
      THEN conjunct2, THEN conjunct2, THEN conjunct1, THEN mp, OF full]
  have b: "had_error (parser (add_local tok_x (locals_state 255)))"
    "compilers (add_local tok_x (locals_state 255)) = compilers (locals_state 255)"
    by (rule at_limit [THEN conjunct2, THEN conjunct2, THEN mp, OF quiet, THEN conjunct1],
        rule at_limit [THEN conjunct2, THEN conjunct1])
  show ?thesis
    using b by (simp add: a locals_state_parser locals_state_compilers)
qed

subsection \<open>String literals in the constant pool\<close>




subsection \<open>The collection trigger\<close>

lemma free_block_reallocate: "free_block old_size p vm = reallocate stress p1 p old_size 0 vm"
  by (simp add: reallocate_def Let_def)






subsection \<open>The list of open upvalues\<close>

lemma upvalue_at_update [simp]:
  "upvalue_at (AList.update a (LOX_UPVALUE u) h) b = (if b = a then Some u else upvalue_at h b)"
  by (simp add: upvalue_at_def)

lemma upvalue_at_cons [simp]:
  "upvalue_at ((a, LOX_UPVALUE u) # h) b = (if b = a then Some u else upvalue_at h b)"
  by (simp add: upvalue_at_def obj_at_def)

lemma open_list_update_other:
  "a \<notin> fst ` set l \<Longrightarrow> open_list (AList.update a (LOX_UPVALUE u) h) p l = open_list h p l"
  by (induction l arbitrary: p) (auto split: option.splits)

lemma open_list_cons_other:
  "a \<notin> fst ` set l \<Longrightarrow> open_list ((a, LOX_UPVALUE u) # h) p l = open_list h p l"
  by (induction l arbitrary: p) (auto split: option.splits)

lemma open_list_in_heap:
  "open_list h p l \<Longrightarrow> (a, n) \<in> set l \<Longrightarrow> \<exists>u. upvalue_at h a = Some u \<and> location u = Slot n"
  by (induction l arbitrary: p) (auto split: option.splits)

lemma upvalue_at_bounded:
  "heap_bounded vm \<Longrightarrow> upvalue_at (heap vm) a = Some u \<Longrightarrow> a < next_addr vm"
  by (auto simp: heap_bounded_def upvalue_at_def obj_at_def list_all_iff
      split: option.splits LoxObj.splits dest!: map_of_SomeD)

lemma open_list_fresh:
  assumes "heap_bounded vm" "open_list (heap vm) p l"
  shows "next_addr vm \<notin> fst ` set l"
proof
  assume "next_addr vm \<in> fst ` set l"
  then obtain n where "(next_addr vm, n) \<in> set l" by auto
  from open_list_in_heap [OF assms(2) this] upvalue_at_bounded [OF assms(1)]
  show False by fastforce
qed

lemma open_list_distinct:
  assumes "open_list h p l" "sorted_wrt (>) (map snd l)"
  shows "distinct (map fst l)"
  using assms
proof (induction l arbitrary: p)
  case Nil
  show ?case by simp
next
  case (Cons x l)
  obtain a n where x: "x = (a, n)" by (cases x)
  from Cons.prems x obtain u where u: "upvalue_at h a = Some u" "location u = Slot n"
    and rest: "open_list h (next_upvalue u) l"
    by (auto split: option.splits)
  have "a \<notin> fst ` set l"
  proof
    assume "a \<in> fst ` set l"
    then obtain m where m: "(a, m) \<in> set l" by auto
    from open_list_in_heap [OF rest m] u have "m = n" by simp
    moreover from Cons.prems(2) x m have "m < n" by force
    ultimately show False by simp
  qed
  moreover have "distinct (map fst l)"
    using Cons.IH [OF rest] Cons.prems(2) by simp
  ultimately show ?case using x by simp
qed

text \<open>
  The walk stops in front of the first upvalue that is not above the slot: it has passed
  the upvalues above it, and \<^verbatim>\<open>prev_upvalue\<close> is the last of them.
\<close>

lemma capture_walk_split:
  assumes "open_list h p l"
  shows "capture_walk h local prev p =
     Some (if takeWhile (\<lambda>(a, n). n > local) l = [] then prev
           else Some (fst (last (takeWhile (\<lambda>(a, n). n > local) l))),
           case dropWhile (\<lambda>(a, n). n > local) l of [] \<Rightarrow> None | (a, n) # _ \<Rightarrow> Some a)"
  using assms
proof (induction l arbitrary: p prev)
  case Nil
  then show ?case by (subst capture_walk.simps) simp
next
  case (Cons x l)
  obtain a n where x: "x = (a, n)" by (cases x)
  from Cons.prems x obtain u where p: "p = Some a" and u: "upvalue_at h a = Some u" "location u = Slot n"
    and rest: "open_list h (next_upvalue u) l"
    by (auto split: option.splits)
  show ?case
  proof (cases "n > local")
    case True
    have "capture_walk h local prev p = capture_walk h local (Some a) (next_upvalue u)"
      using p u True by (subst capture_walk.simps) (simp add: slot_of_def)
    also note Cons.IH [OF rest, of "Some a"]
    finally show ?thesis using True x by (auto split: list.splits)
  next
    case False
    have "capture_walk h local prev p = Some (prev, Some a)"
      using p u False by (subst capture_walk.simps) (simp add: slot_of_def)
    then show ?thesis using False x by simp
  qed
qed


lemma open_list_head:
  "open_list h q l \<Longrightarrow> q = (case l of [] \<Rightarrow> None | (a, n) # _ \<Rightarrow> Some a)"
  by (cases l) auto

lemma open_list_suffix:
  "open_list h q (l1 @ l2) \<Longrightarrow> open_list h (case l2 of [] \<Rightarrow> None | (a, n) # _ \<Rightarrow> Some a) l2"
proof (induction l1 arbitrary: q)
  case Nil
  then show ?case using open_list_head [of h q l2] by simp
next
  case (Cons x l1)
  then show ?case by (cases x) (auto split: option.splits)
qed

lemma open_list_splice:
  assumes "open_list h q (l1 @ l2)" "l1 \<noteq> []" "distinct (map fst (l1 @ l2))"
    and "c \<notin> fst ` set (l1 @ l2)"
    and "upvalue_at h c = Some uc" "location uc = Slot m" "open_list h (next_upvalue uc) l2"
    and "upvalue_at h (fst (last l1)) = Some up"
  shows "open_list (AList.update (fst (last l1)) (LOX_UPVALUE (up\<lparr>next_upvalue := Some c\<rparr>)) h) q
           (l1 @ (c, m) # l2)"
  using assms(1-4,8)
proof (induction l1 arbitrary: q)
  case Nil
  then show ?case by simp
next
  case (Cons x l1)
  obtain a n where x: "x = (a, n)" by (cases x)
  from Cons.prems(1) x obtain u where q: "q = Some a" and u: "upvalue_at h a = Some u" "location u = Slot n"
    and rest: "open_list h (next_upvalue u) (l1 @ l2)"
    by (auto split: option.splits)
  show ?case
  proof (cases "l1 = []")
    case True
    let ?h = "AList.update a (LOX_UPVALUE (up\<lparr>next_upvalue := Some c\<rparr>)) h"
    have up: "up = u" using Cons.prems(5) u True x by simp
    have ac: "a \<noteq> c" using Cons.prems(4) x by auto
    have al2: "a \<notin> fst ` set l2" using Cons.prems(3) x True by auto
    have "open_list ?h (next_upvalue uc) l2"
      using assms(7) al2 by (simp add: open_list_update_other)
    then have "open_list ?h (Some c) ((c, m) # l2)"
      using assms(5,6) ac by simp
    then show ?thesis
      using True x q u up by simp
  next
    case False
    let ?p = "fst (last l1)"
    let ?h = "AList.update ?p (LOX_UPVALUE (up\<lparr>next_upvalue := Some c\<rparr>)) h"
    have last: "last (x # l1) = last l1" using False by simp
    have "?p \<in> fst ` set l1" using False by simp
    then have ap: "a \<noteq> ?p" using Cons.prems(3) x by auto
    have "open_list ?h (next_upvalue u) (l1 @ (c, m) # l2)"
      using Cons.IH [OF rest False] Cons.prems(3,4,5) last by simp
    then show ?thesis
      using x q u ap last by simp
  qed
qed

lemma heap_bounded_iff:
  "heap_bounded vm \<longleftrightarrow> (\<forall>a\<in>set (map fst (heap vm)). a < next_addr vm)"
  by (auto simp: heap_bounded_def list_all_iff)

lemma upvalue_at_key: "upvalue_at h a = Some u \<Longrightarrow> a \<in> set (map fst h)"
  by (auto simp: upvalue_at_def obj_at_def split: option.splits LoxObj.splits
      dest!: map_of_SomeD intro: rev_image_eqI)

lemma heap_bounded_update:
  "heap_bounded vm \<Longrightarrow> upvalue_at (heap vm) a = Some u \<Longrightarrow>
     heap_bounded (vm\<lparr>heap := AList.update a obj (heap vm)\<rparr>)"
  using upvalue_at_key [of "heap vm" a u]
  by (simp add: heap_bounded_iff update_keys)

lemma sorted_insert_slot:
  assumes "sorted_wrt (>) (map snd l)" "local \<notin> snd ` set (l :: (addr \<times> nat) list)"
  shows "sorted_wrt (>) (map snd (takeWhile (\<lambda>(a, n). n > local) l @ (c, local) #
                                   dropWhile (\<lambda>(a, n). n > local) l))"
  using assms
proof (induction l)
  case Nil
  show ?case by simp
next
  case (Cons x l)
  obtain a n where x: "x = (a, n)" by (cases x)
  show ?case
  proof (cases "n > local")
    case True
    have "\<forall>y\<in>set (takeWhile (\<lambda>(a, n). n > local) l @ (c, local) # dropWhile (\<lambda>(a, n). n > local) l).
            snd y < n"
      using Cons.prems(1) True x
      by (auto dest!: set_takeWhileD set_dropWhileD)
    then show ?thesis
      using Cons True x by auto
  next
    case False
    have "n \<noteq> local" using Cons.prems(2) x by auto
    with False have "n < local" by simp
    then show ?thesis
      using Cons.prems(1) False x by auto
  qed
qed

lemma sorted_wrt_gt_distinct: "sorted_wrt (>) (xs :: nat list) \<Longrightarrow> distinct xs"
  by (induction xs) auto

text \<open>
  C4. When the open upvalues form a list sorted by strictly decreasing stack slot,
  \<^verbatim>\<open>capture_upvalue\<close> returns the open upvalue of the slot if there is one, and changes
  nothing; otherwise it allocates an upvalue for the slot and links it in behind the
  upvalues of higher slots and in front of those of lower slots. The list it leaves is
  again sorted by strictly decreasing slot, so no slot has two open upvalues.
\<close>

theorem capture_upvalue_sorted:
  assumes ol: "open_list (heap vm) (open_upvalues vm) l"
    and srt: "sorted_wrt (>) (map snd l)"
    and hb: "heap_bounded vm"
  shows "(\<forall>a. (a, local) \<in> set l \<longrightarrow> capture_upvalue vm local = Some (a, vm)) \<and>
     (local \<notin> snd ` set l \<longrightarrow>
        (\<exists>vm'. capture_upvalue vm local = Some (next_addr vm, vm') \<and>
           open_list (heap vm') (open_upvalues vm')
             (takeWhile (\<lambda>(a, n). n > local) l @ (next_addr vm, local) #
              dropWhile (\<lambda>(a, n). n > local) l) \<and>
           sorted_wrt (>) (map snd (takeWhile (\<lambda>(a, n). n > local) l @ (next_addr vm, local) #
              dropWhile (\<lambda>(a, n). n > local) l)) \<and>
           distinct (map snd (takeWhile (\<lambda>(a, n). n > local) l @ (next_addr vm, local) #
              dropWhile (\<lambda>(a, n). n > local) l)) \<and>
           stack vm' = stack vm \<and> heap_bounded vm'))"
proof (intro conjI allI impI)
  let ?P = "\<lambda>(a :: addr, n). n > local"
  let ?l1 = "takeWhile ?P l" and ?l2 = "dropWhile ?P l"
  let ?prev = "if ?l1 = [] then None else Some (fst (last ?l1))"
  let ?up = "case ?l2 of [] \<Rightarrow> None | (a, n) # _ \<Rightarrow> Some a"
  have walk: "capture_walk (heap vm) local None (open_upvalues vm) = Some (?prev, ?up)"
    using capture_walk_split [OF ol, of local None] by simp
  have l12: "l = ?l1 @ ?l2" by simp
  have srt2: "sorted_wrt (>) (map snd ?l2)"
    using srt by (metis l12 map_append sorted_wrt_append)
  {
    fix a assume a: "(a, local) \<in> set l"
    have "(a, local) \<notin> set ?l1" by (auto dest: set_takeWhileD)
    then have in2: "(a, local) \<in> set ?l2" using a l12 by (metis Un_iff set_append)
    then obtain b n rest where l2: "?l2 = (b, n) # rest" by (cases ?l2) auto
    have "\<not> ?P (b, n)" using l2 by (metis hd_dropWhile list.sel(1) list.distinct(1))
    then have n: "n \<le> local" by simp
    have "(a, local) = (b, n)"
    proof (rule ccontr)
      assume "(a, local) \<noteq> (b, n)"
      then have "(a, local) \<in> set rest" using in2 l2 by auto
      then have "local < n" using srt2 l2 by force
      with n show False by simp
    qed
    then have l2': "?l2 = (a, local) # rest" using l2 by simp
    obtain u where u: "upvalue_at (heap vm) a = Some u" "location u = Slot local"
      using open_list_in_heap [OF ol a] by auto
    show "capture_upvalue vm local = Some (a, vm)"
      using walk l2' u by (simp add: capture_upvalue_def)
  }
  assume new: "local \<notin> snd ` set l"
  let ?c = "next_addr vm"
  let ?uc = "\<lparr>location = Slot local, closed = NIL_VAL, next_upvalue = ?up\<rparr>"
  let ?l' = "?l1 @ (?c, local) # ?l2"
  have fresh: "?c \<notin> fst ` set l" by (rule open_list_fresh [OF hb ol])
  have dist: "distinct (map fst l)" by (rule open_list_distinct [OF ol srt])
  have no_hit: "(case ?up of None \<Rightarrow> None
       | Some a \<Rightarrow> (case upvalue_at (heap vm) a of None \<Rightarrow> None
                     | Some u \<Rightarrow> if location u = Slot local then Some a else None)) = None"
  proof (cases ?l2)
    case Nil
    then show ?thesis by (simp del: dropWhile_eq_Nil_conv)
  next
    case (Cons x rest)
    obtain b n where x: "x = (b, n)" by (cases x)
    have "(b, n) \<in> set l" using Cons x by (metis l12 in_set_conv_decomp)
    then obtain u where u: "upvalue_at (heap vm) b = Some u" "location u = Slot n" and "n \<noteq> local"
      using open_list_in_heap [OF ol] new by force
    then show ?thesis using Cons x by simp
  qed
  let ?vm1 = "vm\<lparr>heap := (?c, LOX_UPVALUE \<lparr>location = Slot local, closed = NIL_VAL, next_upvalue = None\<rparr>) # heap vm,
                  next_addr := ?c + 1\<rparr>"
  let ?h2 = "AList.update ?c (LOX_UPVALUE ?uc) (heap ?vm1)"
  let ?vm2 = "?vm1\<lparr>heap := ?h2\<rparr>"
  have nu: "new_upvalue vm local = (?c, ?vm1)"
    by (simp add: new_upvalue_def allocate_object_def Let_def)
  have sn: "set_next ?c ?up ?vm1 = Some ?vm2"
    by (simp add: set_next_def)
  have ol2: "open_list ?h2 (open_upvalues vm) l"
    using ol fresh by (simp add: open_list_update_other open_list_cons_other)
  have uc2: "upvalue_at ?h2 ?c = Some ?uc" by simp
  have hb2: "heap_bounded ?vm2"
    using hb by (auto simp: heap_bounded_def list_all_iff)
  have srt': "sorted_wrt (>) (map snd ?l')"
    by (rule sorted_insert_slot [OF srt new])
  have dst': "distinct (map snd ?l')"
    by (rule sorted_wrt_gt_distinct [OF srt'])
  show "\<exists>vm'. capture_upvalue vm local = Some (?c, vm') \<and>
           open_list (heap vm') (open_upvalues vm') ?l' \<and> sorted_wrt (>) (map snd ?l') \<and>
           distinct (map snd ?l') \<and> stack vm' = stack vm \<and> heap_bounded vm'"
  proof (cases "?l1 = []")
    case True
    let ?vm' = "?vm2\<lparr>open_upvalues := Some ?c\<rparr>"
    have l2: "?l2 = l" using True l12 by (metis append_Nil)
    have up: "?up = open_upvalues vm"
      using open_list_head [OF ol] l2 by simp
    have cu: "capture_upvalue vm local = Some (?c, ?vm')"
      using walk no_hit nu sn True by (simp add: capture_upvalue_def)
    have "open_list ?h2 (Some ?c) ((?c, local) # l)"
      using ol2 up by simp
    then have "open_list (heap ?vm') (open_upvalues ?vm') ?l'"
      using True l2 by simp
    moreover have "heap_bounded ?vm'"
      using hb2 by (simp add: heap_bounded_iff)
    ultimately show ?thesis
      using cu srt' dst' by (intro exI [of _ ?vm']) simp
  next
    case False
    let ?p = "fst (last ?l1)"
    have "last ?l1 \<in> set l"
      using False by (metis last_in_set set_takeWhileD)
    then obtain n where pn: "(?p, n) \<in> set l"
      by (metis prod.collapse)
    then obtain up where up: "upvalue_at (heap vm) ?p = Some up"
      using open_list_in_heap [OF ol] by blast
    have pc: "?p \<noteq> ?c" using fresh pn by force
    have up2: "upvalue_at ?h2 ?p = Some up"
      using up pc by simp
    let ?h3 = "AList.update ?p (LOX_UPVALUE (up\<lparr>next_upvalue := Some ?c\<rparr>)) ?h2"
    let ?vm' = "?vm2\<lparr>heap := ?h3\<rparr>"
    have sn2: "set_next ?p (Some ?c) ?vm2 = Some ?vm'"
      using up2 by (simp add: set_next_def)
    have cu: "capture_upvalue vm local = Some (?c, ?vm')"
      using walk no_hit nu sn sn2 False by (simp add: capture_upvalue_def)
    have ol12: "open_list ?h2 (open_upvalues vm) (?l1 @ ?l2)"
      using ol2 by simp
    have "open_list ?h3 (open_upvalues vm) ?l'"
    proof (rule open_list_splice [OF ol12 False _ _ uc2 _ _ up2])
      show "distinct (map fst (?l1 @ ?l2))" using dist by simp
      show "?c \<notin> fst ` set (?l1 @ ?l2)" using fresh by simp
      show "location ?uc = Slot local" by simp
      show "open_list ?h2 (next_upvalue ?uc) ?l2"
        using open_list_suffix [OF ol12] by simp
    qed
    then have "open_list (heap ?vm') (open_upvalues ?vm') ?l'" by simp
    moreover have "heap_bounded ?vm'"
      using heap_bounded_update [OF hb2, of ?p up] up2 by simp
    ultimately show ?thesis
      using cu srt' dst' by (intro exI [of _ ?vm']) simp
  qed
qed

text \<open>
  The other operations on the list keep it sorted as well: \<^verbatim>\<open>close_upvalues\<close> removes the
  upvalues at or above a slot, which are a prefix of the list, and \<^verbatim>\<open>reset_stack\<close> and
  \<^verbatim>\<open>init_vm\<close> leave it empty.
\<close>

lemma close_upvalues_prefix:
  assumes "open_list (heap vm) (open_upvalues vm) l" "sorted_wrt (>) (map snd l)"
    and "\<forall>n\<in>snd ` set l. n < length (stack vm)"
  shows "\<exists>vm'. close_upvalues vm last_slot = Some vm' \<and>
           open_list (heap vm') (open_upvalues vm') (dropWhile (\<lambda>(a, n). n \<ge> last_slot) l) \<and>
           sorted_wrt (>) (map snd (dropWhile (\<lambda>(a, n). n \<ge> last_slot) l)) \<and>
           stack vm' = stack vm"
  using assms
proof (induction l arbitrary: vm)
  case Nil
  then show ?case by (subst close_upvalues.simps) simp
next
  case (Cons x l)
  obtain a n where x: "x = (a, n)" by (cases x)
  from Cons.prems(1) x obtain u where p: "open_upvalues vm = Some a"
    and u: "upvalue_at (heap vm) a = Some u" "location u = Slot n"
    and rest: "open_list (heap vm) (next_upvalue u) l"
    by (auto split: option.splits)
  show ?case
  proof (cases "n \<ge> last_slot")
    case True
    let ?vm1 = "vm\<lparr>heap := AList.update a
                    (LOX_UPVALUE (u\<lparr>closed := stack vm ! n, location := Closed\<rparr>)) (heap vm),
                  open_upvalues := next_upvalue u\<rparr>"
    have live: "n < length (stack vm)" using Cons.prems(3) x by simp
    have step: "close_upvalues vm last_slot = close_upvalues ?vm1 last_slot"
      using p u True live by (subst close_upvalues.simps) (simp add: slot_of_def)
    have "distinct (map fst (x # l))"
      by (rule open_list_distinct [OF Cons.prems(1,2)])
    then have "a \<notin> fst ` set l" using x by simp
    then have "open_list (heap ?vm1) (open_upvalues ?vm1) l"
      using rest by (simp add: open_list_update_other)
    moreover have "sorted_wrt (>) (map snd l)" using Cons.prems(2) by simp
    moreover have "\<forall>n\<in>snd ` set l. n < length (stack ?vm1)" using Cons.prems(3) by simp
    ultimately obtain vm' where "close_upvalues ?vm1 last_slot = Some vm'"
      "open_list (heap vm') (open_upvalues vm') (dropWhile (\<lambda>(a, n). n \<ge> last_slot) l)"
      "sorted_wrt (>) (map snd (dropWhile (\<lambda>(a, n). n \<ge> last_slot) l))"
      "stack vm' = stack ?vm1"
      using Cons.IH [of ?vm1] by blast
    then show ?thesis using step True x by simp
  next
    case False
    have "close_upvalues vm last_slot = Some vm"
      using p u False by (subst close_upvalues.simps) (simp add: slot_of_def)
    then show ?thesis using False x Cons.prems(1,2) by simp
  qed
qed

lemma reset_stack_open_list:
  "open_list (heap (reset_stack vm)) (open_upvalues (reset_stack vm)) []"
  by (simp add: reset_stack_def)

theorem capture_upvalue_sorted_witness:
  "capture_upvalue upvalue_vm 3 = Some (8, upvalue_vm) \<and>
   map_option fst (capture_upvalue upvalue_vm 2) = Some 10 \<and>
   map_option (\<lambda>(a, vm'). open_list (heap vm') (open_upvalues vm') [(8, 3), (10, 2), (9, 1)])
     (capture_upvalue upvalue_vm 2) = Some True"
proof -
  let ?l = "[(8, 3), (9, 1)] :: (addr \<times> nat) list"
  have ol: "open_list (heap upvalue_vm) (open_upvalues upvalue_vm) ?l"
    by (simp add: upvalue_vm_def upvalue_at_def obj_at_def)
  have srt: "sorted_wrt (>) (map snd ?l)" by simp
  have hb: "heap_bounded upvalue_vm"
    by (simp add: heap_bounded_def upvalue_vm_def vm0_value)
  note t = capture_upvalue_sorted [OF ol srt hb]
  have a: "capture_upvalue upvalue_vm 3 = Some (8, upvalue_vm)"
    using t [of 3] by simp
  have "2 \<notin> snd ` set ?l" by simp
  with t [of 2] obtain vm' where
    "capture_upvalue upvalue_vm 2 = Some (next_addr upvalue_vm, vm')"
    "open_list (heap vm') (open_upvalues vm')
       (takeWhile (\<lambda>(a, n). n > 2) ?l @ (next_addr upvalue_vm, 2) # dropWhile (\<lambda>(a, n). n > 2) ?l)"
    by blast
  then show ?thesis
    using a by (simp add: upvalue_vm_def)
qed


end
